theory Spec2Isabelle
  imports Complex_Main "HOL-Library.Log_Nat"
begin

section \<open>JavaScript values, errors and the console\<close>

text \<open>
  The values an HTTP client hands to the validators: what a parsed JSON body can hold
  (\<open>null\<close>, booleans, numbers, strings, arrays, objects), a plain string for a body that
  is not JSON, and \<open>undefined\<close>. An object is its table of properties; a lookup takes the
  first entry of a name.
\<close>

datatype jsval =
    Undefined
  | Null
  | Bool bool
  | Num rat
  | Str string
  | Arr "jsval list"
  | Obj "(string \<times> jsval) list"

text \<open>
  Thrown values. \<open>Error\<close> and \<open>TypeError\<close> are the two constructors \<open>src/index.ts\<close> calls;
  a \<open>TypeError\<close> is also what the engine throws on a property read from \<open>null\<close>, and a
  \<open>RangeError\<close> is what \<open>Number.prototype.toFixed\<close> throws on a digit count out of range.
\<close>

datatype js_error = Error string | TypeError string | RangeError string

fun error_message :: "js_error \<Rightarrow> string" where
  "error_message (Error m) = m"
| "error_message (TypeError m) = m"
| "error_message (RangeError m) = m"

text \<open>\<open>typeof\<close>, on the values above.\<close>

fun typeof :: "jsval \<Rightarrow> string" where
  "typeof Undefined = ''undefined''"
| "typeof Null = ''object''"
| "typeof (Bool b) = ''boolean''"
| "typeof (Num n) = ''number''"
| "typeof (Str s) = ''string''"
| "typeof (Arr xs) = ''object''"
| "typeof (Obj ps) = ''object''"

text \<open>
  The property read \<open>value.tag_name\<close>. Reading a property of \<open>null\<close> or \<open>undefined\<close> throws
  a \<open>TypeError\<close> (the wording of its message is the engine's); a name an object does
  not have reads as \<open>undefined\<close>. An array, a string, a number and a boolean have no
  property called \<open>tag_name\<close>.
\<close>

definition null_read_message :: "string \<Rightarrow> string" where
  "null_read_message name = ''Cannot read property '' @ name @ '' of null''"

fun get_property :: "jsval \<Rightarrow> string \<Rightarrow> js_error + jsval" where
  "get_property Null name = Inl (TypeError (null_read_message name))"
| "get_property Undefined name = Inl (TypeError (null_read_message name))"
| "get_property (Obj ps) name = (case map_of ps name of None \<Rightarrow> Inr Undefined | Some v \<Rightarrow> Inr v)"
| "get_property v name = Inr Undefined"

text \<open>
  The console: \<open>console.info\<close> writes to the informational stream, \<open>console.error\<close> to the
  error stream. What is written is a string or an error object.
\<close>

datatype stream = Info | Err

datatype logged = Text string | ErrorObject js_error

type_synonym console = "(stream \<times> logged) list"

text \<open>
  How a call ends: it returns a value, it throws (an \<open>async\<close> function then rejects), or
  the process has been terminated with an exit code.
\<close>

datatype 'a outcome = Returned 'a | Threw js_error | Exited int

text \<open>Decimal digits of a natural number, as a template literal prints an integer.\<close>

definition digit :: "nat \<Rightarrow> char" where
  "digit d = ''0123456789'' ! d"

fun show_nat :: "nat \<Rightarrow> string" where
  "show_nat n = (if n < 10 then [digit n] else show_nat (n div 10) @ [digit (n mod 10)])"

declare show_nat.simps [simp del]

section \<open>exit\<close>

text \<open>
  \<^verbatim>\<open>function exit(code: number, message?: string | Error): never\<close>.
  The optional message is \<open>None\<close> when the argument is left out. \<open>if (message)\<close> tests
  truthiness: an error object is truthy, a string is truthy unless it is empty.
\<close>

datatype message = MsgString string | MsgError js_error

fun truthy :: "message \<Rightarrow> bool" where
  "truthy (MsgString s) = (s \<noteq> [])"
| "truthy (MsgError e) = True"

fun as_logged :: "message \<Rightarrow> logged" where
  "as_logged (MsgString s) = Text s"
| "as_logged (MsgError e) = ErrorObject e"

fun message_text :: "message \<Rightarrow> string" where
  "message_text (MsgString s) = s"
| "message_text (MsgError e) = error_message e"

definition exit :: "int \<Rightarrow> message option \<Rightarrow> console \<Rightarrow> 'a outcome \<times> console" where
  "exit code message con =
     (case message of
        None \<Rightarrow> (Exited code, con)
      | Some m \<Rightarrow>
          if truthy m then
            (let messageString = message_text m in
             if code = 0 then (Exited code, con @ [(Info, as_logged m)])
             else (Exited code, con @ [(Err, Text messageString)]))
          else (Exited code, con))"

section \<open>Release lookup: the two validators and their callers\<close>

text \<open>
  \<^verbatim>\<open>JSON.stringify(value)\<close> inside the template literal is a function of the value alone;
  the validators take it as the parameter \<open>stringify\<close>.
\<close>

definition assertHasTagName :: "(jsval \<Rightarrow> string) \<Rightarrow> jsval \<Rightarrow> js_error + unit" where
  "assertHasTagName stringify v =
     (if typeof v = ''object'' then
        (case get_property v ''tag_name'' of
           Inl e \<Rightarrow> Inl e
         | Inr t \<Rightarrow>
             if typeof t = ''string'' then Inr ()
             else Inl (Error (''Property tag_name not found in '' @ stringify v)))
      else Inl (Error (''Property tag_name not found in '' @ stringify v)))"

text \<open>The copy declared inside \<open>getFabrikateVersion\<close> (lines 110 to 120).\<close>

definition getFabrikateVersion_assertHasTagName :: "(jsval \<Rightarrow> string) \<Rightarrow> jsval \<Rightarrow> js_error + unit" where
  "getFabrikateVersion_assertHasTagName stringify v =
     (if typeof v = ''object'' then
        (case get_property v ''tag_name'' of
           Inl e \<Rightarrow> Inl e
         | Inr t \<Rightarrow>
             if typeof t = ''string'' then Inr ()
             else Inl (Error (''Property tag_name not found in '' @ stringify v)))
      else Inl (Error (''Property tag_name not found in '' @ stringify v)))"

text \<open>A non-null object whose \<open>tag_name\<close> field is a string.\<close>

fun has_string_tag_name :: "jsval \<Rightarrow> bool" where
  "has_string_tag_name (Obj ps) = (case map_of ps ''tag_name'' of Some (Str s) \<Rightarrow> True | _ \<Rightarrow> False)"
| "has_string_tag_name v = False"

text \<open>
  The answer of \<open>axios.get\<close>: a rejection, or a response with a status and a body.
\<close>

record response =
  status :: nat
  data :: jsval

definition non200 :: "nat \<Rightarrow> string \<Rightarrow> string" where
  "non200 st url = ''Non-200 ('' @ show_nat st @ '') response returned from '' @ url"

text \<open>\<open>return data.tag_name\<close>, after the assertion.\<close>

definition return_tag_name :: "jsval \<Rightarrow> console \<Rightarrow> jsval outcome \<times> console" where
  "return_tag_name d con =
     (case get_property d ''tag_name'' of Inl e \<Rightarrow> (Threw e, con) | Inr t \<Rightarrow> (Returned t, con))"

definition getLatestGitTag ::
  "(jsval \<Rightarrow> string) \<Rightarrow> string \<Rightarrow> js_error + response \<Rightarrow> console \<Rightarrow> jsval outcome \<times> console" where
  "getLatestGitTag stringify releasesPage got con =
     (case got of
        Inl e \<Rightarrow> (Threw e, con)
      | Inr resp \<Rightarrow>
          if status resp \<noteq> 200 then
            exit 1 (Some (MsgString (non200 (status resp) releasesPage))) con
          else
            (case assertHasTagName stringify (data resp) of
               Inl e \<Rightarrow> (Threw e, con)
             | Inr u \<Rightarrow> return_tag_name (data resp) con))"

definition fabReleases :: string where
  "fabReleases = ''https://api.github.com/repos/microsoft/fabrikate/releases/latest''"

text \<open>
  \<open>getFabrikateVersion\<close>: the \<open>then\<close> callback, and the \<open>catch\<close> callback that receives
  whatever the request or the \<open>then\<close> callback threw.
\<close>

definition getFabrikateVersion_then ::
  "(jsval \<Rightarrow> string) \<Rightarrow> response \<Rightarrow> console \<Rightarrow> jsval outcome \<times> console" where
  "getFabrikateVersion_then stringify resp con =
     (if status resp \<noteq> 200 then
        exit 1 (Some (MsgString (non200 (status resp) fabReleases))) con
      else
        (case getFabrikateVersion_assertHasTagName stringify (data resp) of
           Inl e \<Rightarrow> (Threw e, con)
         | Inr u \<Rightarrow> return_tag_name (data resp) con))"

definition getFabrikateVersion_catch :: "js_error \<Rightarrow> console \<Rightarrow> jsval outcome \<times> console" where
  "getFabrikateVersion_catch err con =
     exit 1 (Some (MsgString (''Error fetching releases page from '' @ fabReleases)))
       (con @ [(Err, ErrorObject err)])"

definition getFabrikateVersion ::
  "(jsval \<Rightarrow> string) \<Rightarrow> js_error + response \<Rightarrow> console \<Rightarrow> jsval outcome \<times> console" where
  "getFabrikateVersion stringify got con =
     (case (case got of Inl e \<Rightarrow> (Threw e, con)
                      | Inr resp \<Rightarrow> getFabrikateVersion_then stringify resp con) of
        (Threw err, con') \<Rightarrow> getFabrikateVersion_catch err con'
      | r \<Rightarrow> r)"

section \<open>Promises\<close>

text \<open>
  A promise is pending until the first call of \<open>resolve\<close> or \<open>reject\<close>; every later
  call is ignored.
\<close>

datatype 'a promise = Pending | Resolved 'a | Rejected js_error

definition settle :: "'a promise \<Rightarrow> 'a promise \<Rightarrow> 'a promise" where
  "settle p new = (case p of Pending \<Rightarrow> new | Resolved r \<Rightarrow> p | Rejected e \<Rightarrow> p)"

section \<open>spawn\<close>

text \<open>
  What the launcher \<open>child_process.spawn(cmd, args, opts)\<close> does is the input of the
  model: it throws at once (the promise's executor then rejects), or it returns a child
  whose streams and events follow. \<open>child.stdout\<close> and \<open>child.stderr\<close> are \<open>null\<close> when
  the options do not pipe them; \<open>?.\<close> then registers no listener. A chunk is the text
  that \<open>stdout + data\<close> appends.
\<close>

datatype child_event =
    StdoutData string
  | StderrData string
  | ErrorEvent js_error
  | ExitEvent "int option"

datatype launch =
    LaunchThrows js_error
  | Child bool bool "child_event list"

record spawn_result =
  stdout :: string
  stderr :: string
  stdCombined :: string
  code :: int

record spawn_state =
  vars :: spawn_result
  promise :: "spawn_result promise"

definition spawn_init :: spawn_state where
  "spawn_init = \<lparr>vars = \<lparr>stdout = [], stderr = [], stdCombined = [], code = 0\<rparr>, promise = Pending\<rparr>"

fun spawn_step :: "bool \<Rightarrow> bool \<Rightarrow> spawn_state \<Rightarrow> child_event \<Rightarrow> spawn_state" where
  "spawn_step has_out has_err s (StdoutData d) =
     (if has_out then
        s\<lparr>vars := (vars s)\<lparr>stdout := stdout (vars s) @ d, stdCombined := stdCombined (vars s) @ d\<rparr>\<rparr>
      else s)"
| "spawn_step has_out has_err s (StderrData d) =
     (if has_err then
        s\<lparr>vars := (vars s)\<lparr>stderr := stderr (vars s) @ d, stdCombined := stdCombined (vars s) @ d\<rparr>\<rparr>
      else s)"
| "spawn_step has_out has_err s (ErrorEvent err) =
     s\<lparr>promise := settle (promise s) (Rejected err)\<rparr>"
| "spawn_step has_out has_err s (ExitEvent exitCode) =
     (let v = (vars s)\<lparr>code := (case exitCode of Some c \<Rightarrow> c | None \<Rightarrow> code (vars s))\<rparr>
      in s\<lparr>vars := v, promise := settle (promise s) (Resolved v)\<rparr>)"

fun spawn_run :: "bool \<Rightarrow> bool \<Rightarrow> spawn_state \<Rightarrow> child_event list \<Rightarrow> spawn_state" where
  "spawn_run has_out has_err s [] = s"
| "spawn_run has_out has_err s (ev # evs) = spawn_run has_out has_err (spawn_step has_out has_err s ev) evs"

fun spawn :: "launch \<Rightarrow> spawn_result promise" where
  "spawn (LaunchThrows err) = Rejected err"
| "spawn (Child has_out has_err evs) = promise (spawn_run has_out has_err spawn_init evs)"

text \<open>Vocabulary for traces of a child.\<close>

fun settles :: "child_event \<Rightarrow> bool" where
  "settles (ErrorEvent err) = True"
| "settles (ExitEvent c) = True"
| "settles ev = False"

definition first_signal :: "child_event list \<Rightarrow> child_event option" where
  "first_signal evs = List.find settles evs"

fun stdout_chunks :: "child_event list \<Rightarrow> string list" where
  "stdout_chunks [] = []"
| "stdout_chunks (StdoutData d # evs) = d # stdout_chunks evs"
| "stdout_chunks (ev # evs) = stdout_chunks evs"

fun stderr_chunks :: "child_event list \<Rightarrow> string list" where
  "stderr_chunks [] = []"
| "stderr_chunks (StderrData d # evs) = d # stderr_chunks evs"
| "stderr_chunks (ev # evs) = stderr_chunks evs"

fun all_chunks :: "child_event list \<Rightarrow> string list" where
  "all_chunks [] = []"
| "all_chunks (StdoutData d # evs) = d # all_chunks evs"
| "all_chunks (StderrData d # evs) = d # all_chunks evs"
| "all_chunks (ev # evs) = all_chunks evs"

text \<open>The events that arrive before the first \<open>error\<close> or \<open>exit\<close> event.\<close>

definition before_signal :: "child_event list \<Rightarrow> child_event list" where
  "before_signal evs = takeWhile (\<lambda>ev. \<not> settles ev) evs"

text \<open>
  The launcher reports that the process could not be started: it throws, or the first
  signal of the child is its \<open>error\<close> event.
\<close>

fun launch_error :: "launch \<Rightarrow> js_error option" where
  "launch_error (LaunchThrows err) = Some err"
| "launch_error (Child has_out has_err evs) =
     (case first_signal evs of Some (ErrorEvent err) \<Rightarrow> Some err | _ \<Rightarrow> None)"

text \<open>A stream that is \<open>null\<close> emits nothing.\<close>

fun emitted_by :: "bool \<Rightarrow> bool \<Rightarrow> child_event \<Rightarrow> bool" where
  "emitted_by has_out has_err (StdoutData d) = has_out"
| "emitted_by has_out has_err (StderrData d) = has_err"
| "emitted_by has_out has_err ev = True"

section \<open>JavaScript numbers\<close>

text \<open>
  A Number is a binary64 value: \<open>NaN\<close>, an infinity, or a finite rational. \<open>fl\<close> rounds
  a rational to the nearest binary64 value, ties to even, with gradual underflow and
  overflow to infinity. Zero carries no sign here; the operands of \<open>downloadFile\<close> are
  never negative.
\<close>

datatype number = NaN | PosInf | NegInf | Fin rat

definition pow2 :: "int \<Rightarrow> rat" where
  "pow2 e = (if 0 \<le> e then 2 ^ nat e else 1 / 2 ^ nat (- e))"

definition ilog2 :: "rat \<Rightarrow> int" where
  "ilog2 a = (case quotient_of a of (p, q) \<Rightarrow>
     (let e = bitlen p - bitlen q in if pow2 e \<le> a then e else e - 1))"

definition round_half_even :: "rat \<Rightarrow> int" where
  "round_half_even q =
     (let f = \<lfloor>q\<rfloor>; r = q - of_int f
      in if r < 1 / 2 then f else if 1 / 2 < r then f + 1 else if even f then f else f + 1)"

definition fl :: "rat \<Rightarrow> number" where
  "fl x =
     (if x = 0 then Fin 0
      else
        (let a = \<bar>x\<bar>;
             e = max (ilog2 a) (- 1022);
             u = pow2 (e - 52);
             y = of_int (round_half_even (a / u)) * u
         in if pow2 1024 \<le> y then (if 0 < x then PosInf else NegInf)
            else Fin (if 0 < x then y else - y)))"

fun num_add :: "number \<Rightarrow> number \<Rightarrow> number" where
  "num_add NaN y = NaN"
| "num_add x NaN = NaN"
| "num_add PosInf NegInf = NaN"
| "num_add NegInf PosInf = NaN"
| "num_add PosInf y = PosInf"
| "num_add NegInf y = NegInf"
| "num_add (Fin a) PosInf = PosInf"
| "num_add (Fin a) NegInf = NegInf"
| "num_add (Fin a) (Fin b) = fl (a + b)"

fun num_div :: "number \<Rightarrow> number \<Rightarrow> number" where
  "num_div NaN y = NaN"
| "num_div x NaN = NaN"
| "num_div PosInf (Fin b) = (if b < 0 then NegInf else PosInf)"
| "num_div NegInf (Fin b) = (if b < 0 then PosInf else NegInf)"
| "num_div PosInf y = NaN"
| "num_div NegInf y = NaN"
| "num_div (Fin a) (Fin b) =
     (if b = 0 then (if a = 0 then NaN else if 0 < a then PosInf else NegInf)
      else fl (a / b))"
| "num_div (Fin a) y = Fin 0"

fun num_mul :: "number \<Rightarrow> number \<Rightarrow> number" where
  "num_mul NaN y = NaN"
| "num_mul x NaN = NaN"
| "num_mul (Fin a) (Fin b) = fl (a * b)"
| "num_mul (Fin a) y = (if a = 0 then NaN else if (0 < a) = (y = PosInf) then PosInf else NegInf)"
| "num_mul x (Fin b) = (if b = 0 then NaN else if (0 < b) = (x = PosInf) then PosInf else NegInf)"
| "num_mul x y = (if x = y then PosInf else NegInf)"

text \<open>
  \<open>Number.prototype.toFixed(f)\<close>: a \<open>RangeError\<close> for more than 100 digits, the names of
  the values that are not finite, the engine's \<open>Number::toString\<close> (the parameter
  \<open>to_string\<close>) from \<open>10^21\<close> on, and otherwise the integer \<open>n\<close> nearest to \<open>x * 10^f\<close>
  (the larger one of two), written with \<open>f\<close> digits after the point.
\<close>

definition toFixed :: "(rat \<Rightarrow> string) \<Rightarrow> nat \<Rightarrow> number \<Rightarrow> js_error + string" where
  "toFixed to_string f x =
     (if 100 < f then Inl (RangeError ''toFixed() digits argument must be between 0 and 100'')
      else
        (case x of
           NaN \<Rightarrow> Inr ''NaN''
         | PosInf \<Rightarrow> Inr ''Infinity''
         | NegInf \<Rightarrow> Inr ''-Infinity''
         | Fin v \<Rightarrow>
             (let s = (if v < 0 then ''-'' else []); a = \<bar>v\<bar>
              in if 10 ^ 21 \<le> a then Inr (s @ to_string a)
                 else
                   (let n = nat \<lfloor>a * 10 ^ f + 1 / 2\<rfloor>;
                        m = show_nat n;
                        z = replicate (f + 1 - length m) (CHR ''0'') @ m;
                        k = length z
                    in Inr (s @ (if f = 0 then m else take (k - f) z @ ''.'' @ drop (k - f) z))))))"

section \<open>downloadFile\<close>

text \<open>
  The response of the HTTP client: its status code and the \<open>content-length\<close> header,
  absent or a number of bytes (the HTTP parser accepts no other value of that header).
  \<open>Number\<close> of an absent header is \<open>Number(undefined)\<close>.
\<close>

record http_response =
  statusCode :: nat
  content_length :: "nat option"

fun Number_of_header :: "nat option \<Rightarrow> number" where
  "Number_of_header None = NaN"
| "Number_of_header (Some l) = fl (of_nat l)"

text \<open>
  The events of the request object. \<open>downloadFile\<close> listens to \<open>response\<close>, \<open>data\<close>,
  \<open>complete\<close> and \<open>error\<close>; \<open>end\<close> is the end-of-data signal of the body stream, to which
  it does not listen. \<open>fabReq.pipe(fs.createWriteStream(to))\<close> writes every chunk of the
  body to the destination; \<open>written\<close> is what has been written there.
\<close>

datatype request_event =
    ResponseEvent http_response
  | DataEvent string
  | EndEvent
  | CompleteEvent
  | RequestError js_error

record download_state =
  contentLength :: number
  downloaded :: number
  written :: string
  logged_lines :: console
  settled :: "unit promise"

definition download_init :: download_state where
  "download_init = \<lparr>contentLength = Fin 0, downloaded = Fin 0, written = [], logged_lines = [], settled = Pending\<rparr>"

text \<open>
  One event. A listener that throws is an uncaught exception: the result is \<open>Inl\<close> and
  nothing runs after it.
\<close>

fun download_step :: "(rat \<Rightarrow> string) \<Rightarrow> download_state \<Rightarrow> request_event \<Rightarrow> js_error + download_state" where
  "download_step to_string s (ResponseEvent response) =
     Inr (s\<lparr>contentLength := Number_of_header (content_length response)\<rparr>)"
| "download_step to_string s (DataEvent chunk) =
     (let d = num_add (downloaded s) (Fin (of_nat (length chunk)))
      in case toFixed to_string 2 (num_mul (num_div d (contentLength s)) (Fin 100)) of
           Inl e \<Rightarrow> Inl e
         | Inr downloadPercentage \<Rightarrow>
             Inr (s\<lparr>downloaded := d, written := written s @ chunk,
                    logged_lines := logged_lines s @ [(Info, Text (''Download status: '' @ downloadPercentage @ ''%''))]\<rparr>))"
| "download_step to_string s EndEvent = Inr s"
| "download_step to_string s CompleteEvent = Inr (s\<lparr>settled := settle (settled s) (Resolved ())\<rparr>)"
| "download_step to_string s (RequestError err) = Inr (s\<lparr>settled := settle (settled s) (Rejected err)\<rparr>)"

fun download_run :: "(rat \<Rightarrow> string) \<Rightarrow> download_state \<Rightarrow> request_event list \<Rightarrow> js_error + download_state" where
  "download_run to_string s [] = Inr s"
| "download_run to_string s (ev # evs) =
     (case download_step to_string s ev of
        Inl e \<Rightarrow> Inl e
      | Inr s' \<Rightarrow> download_run to_string s' evs)"

definition downloadFile :: "(rat \<Rightarrow> string) \<Rightarrow> request_event list \<Rightarrow> js_error + download_state" where
  "downloadFile to_string evs = download_run to_string download_init evs"

text \<open>Vocabulary for traces of a request.\<close>

fun body_chunks :: "request_event list \<Rightarrow> string list" where
  "body_chunks [] = []"
| "body_chunks (DataEvent chunk # evs) = chunk # body_chunks evs"
| "body_chunks (ev # evs) = body_chunks evs"

fun is_response :: "request_event \<Rightarrow> bool" where
  "is_response (ResponseEvent r) = True"
| "is_response ev = False"


text \<open>The same event with another status code.\<close>

fun with_status :: "nat \<Rightarrow> request_event \<Rightarrow> request_event" where
  "with_status st (ResponseEvent r) = ResponseEvent (r\<lparr>statusCode := st\<rparr>)"
| "with_status st ev = ev"

text \<open>No response of the trace declares a \<open>content-length\<close>.\<close>

fun undeclared :: "request_event \<Rightarrow> bool" where
  "undeclared (ResponseEvent r) = (content_length r = None)"
| "undeclared ev = True"

text \<open>The line \<open>console.info\<close> writes for a percentage text.\<close>

definition progress_line :: "string \<Rightarrow> stream \<times> logged" where
  "progress_line p = (Info, Text (''Download status: '' @ p @ ''%''))"

text \<open>
  A value for the parameter \<open>to_string\<close> in the concrete traces below, none of which
  reaches \<open>10^21\<close> percent.
\<close>

definition unused_to_string :: "rat \<Rightarrow> string" where
  "unused_to_string x = []"

section \<open>Properties of exit\<close>

text \<open>
  C8, as the code has it. For every call \<open>exit(code, message)\<close> whose message passes the
  test \<open>if (message)\<close> (an error object, or a string that is not empty): with code 0 the
  message itself is written to the informational stream, with any other code the text of
  the message is written to the error stream, and nothing else is written; the process
  then terminates with exactly that code.
\<close>

theorem exit_writes_then_terminates:
  "truthy m \<Longrightarrow>
   (exit c (Some m) k :: 'a outcome \<times> console) =
     (Exited c, k @ [if c = 0 then (Info, as_logged m) else (Err, Text (message_text m))])"
  by (simp add: exit_def)

theorem exit_writes_then_terminates_witness:
  "truthy (MsgString ''done'') \<and> truthy (MsgError (Error ''bad'')) \<and>
   (exit 0 (Some (MsgString ''done'')) [] :: unit outcome \<times> console) =
     (Exited 0, [(Info, Text ''done'')]) \<and>
   (exit 0 (Some (MsgError (Error ''bad''))) [] :: unit outcome \<times> console) =
     (Exited 0, [(Info, ErrorObject (Error ''bad''))]) \<and>
   (exit 1 (Some (MsgError (Error ''bad''))) [] :: unit outcome \<times> console) =
     (Exited 1, [(Err, Text ''bad'')])"
  using exit_writes_then_terminates [of "MsgString ''done''" 0 "[]"]
    exit_writes_then_terminates [of "MsgError (Error ''bad'')" 0 "[]"]
    exit_writes_then_terminates [of "MsgError (Error ''bad'')" 1 "[]"]
  by simp

text \<open>
  C8 as stated fails for a message that is present and empty: \<open>exit(0, "")\<close> and
  \<open>exit(1, "")\<close> write nothing to either stream.
\<close>

theorem exit_empty_message_counterexample:
  "(exit 0 (Some (MsgString [])) [] :: unit outcome \<times> console) = (Exited 0, []) \<and>
   (exit 1 (Some (MsgString [])) [] :: unit outcome \<times> console) = (Exited 1, [])"
  by (simp add: exit_def)

section \<open>Properties of the validators\<close>

lemma typeof_string_iff: "(typeof t = ''string'') = (\<exists>s. t = Str s)"
  by (cases t) simp_all

lemma validators_agree:
  "getFabrikateVersion_assertHasTagName stringify v = assertHasTagName stringify v"
  by (simp add: getFabrikateVersion_assertHasTagName_def assertHasTagName_def)

lemma exit_not_Returned: "exit c m k \<noteq> (Returned t, k')"
  by (auto simp: exit_def Let_def split: option.splits)

text \<open>
  C10. \<open>assertHasTagName\<close> returns normally exactly for the non-null objects whose
  \<open>tag_name\<close> field is a string and throws for every other value. For \<open>null\<close> what is
  thrown is the \<open>TypeError\<close> of the property read; for every other rejected value it is
  the \<open>Error\<close> with the text \<open>Property tag_name not found in ...\<close>.
\<close>

theorem assertHasTagName_accepts:
  "((assertHasTagName stringify v = Inr ()) = has_string_tag_name v) \<and>
   (\<not> has_string_tag_name v \<longrightarrow>
      assertHasTagName stringify v =
        (if v = Null then Inl (TypeError (null_read_message ''tag_name''))
         else Inl (Error (''Property tag_name not found in '' @ stringify v))))"
  by (cases v) (auto simp: assertHasTagName_def typeof_string_iff split: option.splits jsval.splits)

theorem assertHasTagName_accepts_witness:
  "\<not> has_string_tag_name Null \<and> \<not> has_string_tag_name (Num 3) \<and>
   has_string_tag_name (Obj [(''tag_name'', Str ''v1'')]) \<and>
   assertHasTagName (\<lambda>v. ''null'') Null = Inl (TypeError (null_read_message ''tag_name'')) \<and>
   assertHasTagName (\<lambda>v. ''3'') (Num 3) = Inl (Error ''Property tag_name not found in 3'') \<and>
   assertHasTagName (\<lambda>v. []) (Obj [(''tag_name'', Str ''v1'')]) = Inr ()"
  using assertHasTagName_accepts [of "\<lambda>v. ''null''" Null]
    assertHasTagName_accepts [of "\<lambda>v. ''3''" "Num 3"]
    assertHasTagName_accepts [of "\<lambda>v. []" "Obj [(''tag_name'', Str ''v1'')]"]
  by simp

text \<open>
  C9. The validator declared inside \<open>getFabrikateVersion\<close> and the one at module level
  are the same function: they accept the same values and throw the same errors. So
  \<open>getFabrikateVersion\<close> returns a tag on a response exactly when \<open>getLatestGitTag\<close>,
  called with the Fabrikate releases URL, returns that tag on the same response.
\<close>

theorem validators_equal:
  "getFabrikateVersion_assertHasTagName = assertHasTagName \<and>
   ((getFabrikateVersion stringify got k = (Returned t, k')) =
    (getLatestGitTag stringify fabReleases got k = (Returned t, k')))"
proof
  show "getFabrikateVersion_assertHasTagName = assertHasTagName"
    by (intro ext) (rule validators_agree)
next
  show "(getFabrikateVersion stringify got k = (Returned t, k')) =
    (getLatestGitTag stringify fabReleases got k = (Returned t, k'))"
  proof (cases got)
    case (Inl e)
    then show ?thesis
      by (simp add: getFabrikateVersion_def getLatestGitTag_def getFabrikateVersion_catch_def exit_not_Returned)
  next
    case (Inr resp)
    show ?thesis
    proof (cases "status resp = 200")
      case False
      then show ?thesis using Inr
        by (auto simp: getFabrikateVersion_def getLatestGitTag_def getFabrikateVersion_then_def
            exit_def Let_def)
    next
      case True
      then show ?thesis using Inr
        by (auto simp: getFabrikateVersion_def getLatestGitTag_def getFabrikateVersion_then_def
            validators_agree return_tag_name_def getFabrikateVersion_catch_def exit_not_Returned
            split: sum.splits)
    qed
  qed
qed

section \<open>Properties of spawn\<close>

lemma settle_Pending [simp]: "settle Pending p = p"
  by (simp add: settle_def)

lemma settle_settled [simp]: "q \<noteq> Pending \<Longrightarrow> settle q p = q"
  by (cases q) (simp_all add: settle_def)

lemma spawn_step_settled: "promise s \<noteq> Pending \<Longrightarrow> promise (spawn_step so se s ev) = promise s"
  by (cases ev) (simp_all add: Let_def)

lemma spawn_run_settled: "promise s \<noteq> Pending \<Longrightarrow> promise (spawn_run so se s evs) = promise s"
  by (induction evs arbitrary: s) (simp_all add: spawn_step_settled)

lemma spawn_run_append:
  "spawn_run so se s (xs @ ys) = spawn_run so se (spawn_run so se s xs) ys"
  by (induction xs arbitrary: s) simp_all

lemma spawn_step_quiet: "\<not> settles ev \<Longrightarrow> promise (spawn_step so se s ev) = promise s \<and> code (vars (spawn_step so se s ev)) = code (vars s)"
  by (cases ev) simp_all

lemma spawn_run_quiet_promise:
  "list_all (\<lambda>ev. \<not> settles ev) evs \<Longrightarrow>
   promise (spawn_run so se s evs) = promise s \<and> code (vars (spawn_run so se s evs)) = code (vars s)"
  by (induction evs arbitrary: s) (simp_all add: spawn_step_quiet)

lemma spawn_run_quiet:
  "list_all (\<lambda>ev. \<not> settles ev) evs \<Longrightarrow> list_all (emitted_by so se) evs \<Longrightarrow>
   vars (spawn_run so se s evs) =
     (vars s)\<lparr>stdout := stdout (vars s) @ concat (stdout_chunks evs),
              stderr := stderr (vars s) @ concat (stderr_chunks evs),
              stdCombined := stdCombined (vars s) @ concat (all_chunks evs)\<rparr>"
proof (induction evs arbitrary: s)
  case Nil
  then show ?case by simp
next
  case (Cons ev evs)
  then show ?case by (cases ev) auto
qed

lemma before_signal_quiet: "list_all (\<lambda>ev. \<not> settles ev) (before_signal evs)"
  unfolding before_signal_def list_all_iff by (auto dest: set_takeWhileD)

lemma before_signal_emitted: "list_all (emitted_by so se) evs \<Longrightarrow> list_all (emitted_by so se) (before_signal evs)"
  unfolding before_signal_def list_all_iff by (auto dest: set_takeWhileD)

lemma chunk_lengths:
  "length (concat (all_chunks evs)) = length (concat (stdout_chunks evs)) + length (concat (stderr_chunks evs))"
  by (induction evs rule: all_chunks.induct) simp_all

lemma first_signal_None: "first_signal evs = None \<Longrightarrow> list_all (\<lambda>ev. \<not> settles ev) evs"
  by (simp add: first_signal_def find_None_iff list_all_iff)

lemma first_signal_Some:
  "first_signal evs = Some ev \<Longrightarrow> settles ev \<and> (\<exists>rest. evs = before_signal evs @ ev # rest)"
proof (induction evs)
  case Nil
  then show ?case by (simp add: first_signal_def)
next
  case (Cons a evs)
  then show ?case by (cases "settles a") (auto simp: first_signal_def before_signal_def)
qed

lemma first_signal_cases:
  "first_signal evs = None \<or> (\<exists>err. first_signal evs = Some (ErrorEvent err)) \<or> (\<exists>x. first_signal evs = Some (ExitEvent x))"
proof (cases "first_signal evs")
  case None
  then show ?thesis by simp
next
  case (Some ev)
  then have "settles ev" by (simp add: first_signal_Some)
  then show ?thesis using Some by (cases ev) simp_all
qed

lemma spawn_pending: "first_signal evs = None \<Longrightarrow> spawn (Child so se evs) = Pending"
  using spawn_run_quiet_promise [of evs so se spawn_init] first_signal_None [of evs]
  by (simp add: spawn_init_def)

lemma spawn_rejected:
  assumes "first_signal evs = Some (ErrorEvent err)"
  shows "spawn (Child so se evs) = Rejected err"
proof -
  obtain rest where split: "evs = before_signal evs @ ErrorEvent err # rest"
    using first_signal_Some [OF assms] by blast
  let ?s = "spawn_run so se spawn_init (before_signal evs)"
  have "promise ?s = Pending"
    using spawn_run_quiet_promise [of "before_signal evs" so se spawn_init] before_signal_quiet [of evs]
    by (simp add: spawn_init_def)
  then have "promise (spawn_step so se ?s (ErrorEvent err)) = Rejected err" by simp
  then have "promise (spawn_run so se (spawn_step so se ?s (ErrorEvent err)) rest) = Rejected err"
    by (simp add: spawn_run_settled)
  then have "promise (spawn_run so se spawn_init (before_signal evs @ ErrorEvent err # rest)) = Rejected err"
    by (simp add: spawn_run_append)
  then show ?thesis using split by simp
qed

lemma spawn_resolved:
  assumes "first_signal evs = Some (ExitEvent x)"
  shows "spawn (Child so se evs) =
    Resolved ((vars (spawn_run so se spawn_init (before_signal evs)))
                \<lparr>code := (case x of Some c \<Rightarrow> c | None \<Rightarrow> 0)\<rparr>)"
proof -
  obtain rest where split: "evs = before_signal evs @ ExitEvent x # rest"
    using first_signal_Some [OF assms] by blast
  let ?s = "spawn_run so se spawn_init (before_signal evs)"
  let ?v = "(vars ?s)\<lparr>code := (case x of Some c \<Rightarrow> c | None \<Rightarrow> 0)\<rparr>"
  have quiet: "promise ?s = Pending \<and> code (vars ?s) = 0"
    using spawn_run_quiet_promise [of "before_signal evs" so se spawn_init] before_signal_quiet [of evs]
    by (simp add: spawn_init_def)
  then have "promise (spawn_step so se ?s (ExitEvent x)) = Resolved ?v"
    by (cases x) (simp_all add: Let_def)
  then have "promise (spawn_run so se (spawn_step so se ?s (ExitEvent x)) rest) = Resolved ?v"
    by (simp add: spawn_run_settled)
  then have "promise (spawn_run so se spawn_init (before_signal evs @ ExitEvent x # rest)) = Resolved ?v"
    by (simp add: spawn_run_append)
  then show ?thesis using split by simp
qed

text \<open>
  C1. The call rejects if and only if the launcher reports a launch error (it throws, or
  the child's first signal is the \<open>error\<close> event), and it rejects with that error. When
  the child's first signal is an \<open>exit\<close> event with a code, the call resolves with a
  result carrying that code. A rejection and a nonzero exit are different values of the
  promise.
\<close>

theorem spawn_rejects_iff_launch_error:
  "(spawn l = Rejected err) = (launch_error l = Some err) \<and>
   (first_signal evs = Some (ExitEvent (Some c)) \<longrightarrow>
      (\<exists>r. spawn (Child has_out has_err evs) = Resolved r \<and> code r = c))"
proof
  show "(spawn l = Rejected err) = (launch_error l = Some err)"
  proof (cases l)
    case (LaunchThrows e)
    then show ?thesis by auto
  next
    case (Child so se es)
    then show ?thesis using first_signal_cases [of es]
      by (auto simp: spawn_pending spawn_rejected spawn_resolved simp del: spawn.simps)
  qed
next
  show "first_signal evs = Some (ExitEvent (Some c)) \<longrightarrow>
      (\<exists>r. spawn (Child has_out has_err evs) = Resolved r \<and> code r = c)"
    by (simp add: spawn_resolved del: spawn.simps)
qed

theorem spawn_rejects_iff_launch_error_witness:
  "first_signal [StdoutData ''x'', ExitEvent (Some 2)] = Some (ExitEvent (Some 2)) \<and>
   spawn (Child True True [StdoutData ''x'', ExitEvent (Some 2)]) =
     Resolved \<lparr>stdout = ''x'', stderr = [], stdCombined = ''x'', code = 2\<rparr> \<and>
   launch_error (Child True True [ErrorEvent (Error ''spawn nothere ENOENT'')]) =
     Some (Error ''spawn nothere ENOENT'') \<and>
   spawn (Child True True [ErrorEvent (Error ''spawn nothere ENOENT'')]) =
     Rejected (Error ''spawn nothere ENOENT'')"
  using spawn_rejects_iff_launch_error
    [of "Child True True [ErrorEvent (Error ''spawn nothere ENOENT'')]" "Error ''spawn nothere ENOENT''"
      "[StdoutData ''x'', ExitEvent (Some 2)]" 2 True True]
  by (simp add: first_signal_def spawn_init_def Let_def)

text \<open>
  C2. When the child's first signal is an \<open>exit\<close> event, the call resolves with that
  event's code, and with 0 when the event carries \<open>null\<close>. The call resolves only on an
  \<open>exit\<close> event, and it stays pending as long as no \<open>exit\<close> or \<open>error\<close> event has
  arrived: chunks of output never settle it.
\<close>

theorem spawn_resolves_with_exit_code:
  "(first_signal evs = Some (ExitEvent x) \<longrightarrow>
      (\<exists>r. spawn (Child has_out has_err evs) = Resolved r \<and>
           code r = (case x of Some c \<Rightarrow> c | None \<Rightarrow> 0))) \<and>
   ((\<exists>r. spawn (Child has_out has_err evs) = Resolved r) = (\<exists>x. first_signal evs = Some (ExitEvent x))) \<and>
   ((spawn (Child has_out has_err evs) = Pending) = (first_signal evs = None))"
  using first_signal_cases [of evs]
  by (auto simp: spawn_pending spawn_rejected spawn_resolved simp del: spawn.simps)

theorem spawn_resolves_with_exit_code_witness:
  "first_signal [StderrData ''killed'', ExitEvent None] = Some (ExitEvent None) \<and>
   spawn (Child True True [StderrData ''killed'', ExitEvent None]) =
     Resolved \<lparr>stdout = [], stderr = ''killed'', stdCombined = ''killed'', code = 0\<rparr> \<and>
   first_signal [StdoutData ''a'', StderrData ''b''] = None \<and>
   spawn (Child True True [StdoutData ''a'', StderrData ''b'']) = Pending"
  using spawn_resolves_with_exit_code [of "[StderrData ''killed'', ExitEvent None]" None True True]
    spawn_resolves_with_exit_code [of "[StdoutData ''a'', StderrData ''b'']" None True True]
  by (simp add: first_signal_def spawn_init_def Let_def)

text \<open>
  C3, as the code has it. In the resolved result, \<open>stdout\<close> is the concatenation of the
  standard-output chunks that arrived before the \<open>exit\<close> event, in arrival order,
  \<open>stderr\<close> the same for standard error, and \<open>stdCombined\<close> the concatenation of the
  chunks of both streams that arrived before the \<open>exit\<close> event, in the order they were
  received; its length is the sum of the lengths of the other two.
\<close>

theorem spawn_output_before_exit:
  assumes "list_all (emitted_by has_out has_err) evs"
    and "spawn (Child has_out has_err evs) = Resolved r"
  shows "stdout r = concat (stdout_chunks (before_signal evs)) \<and>
         stderr r = concat (stderr_chunks (before_signal evs)) \<and>
         stdCombined r = concat (all_chunks (before_signal evs)) \<and>
         length (stdCombined r) = length (stdout r) + length (stderr r)"
proof -
  obtain x where x: "first_signal evs = Some (ExitEvent x)"
    using assms(2) first_signal_cases [of evs]
    by (auto simp: spawn_pending spawn_rejected simp del: spawn.simps)
  have "vars (spawn_run has_out has_err spawn_init (before_signal evs)) =
        (vars spawn_init)\<lparr>stdout := concat (stdout_chunks (before_signal evs)),
              stderr := concat (stderr_chunks (before_signal evs)),
              stdCombined := concat (all_chunks (before_signal evs))\<rparr>"
    using spawn_run_quiet [of "before_signal evs" has_out has_err spawn_init] before_signal_quiet [of evs] before_signal_emitted [OF assms(1)]
    by (simp add: spawn_init_def)
  then show ?thesis using assms(2) spawn_resolved [OF x, of has_out has_err]
    by (auto simp: chunk_lengths simp del: spawn.simps)
qed

theorem spawn_output_before_exit_witness:
  "list_all (emitted_by True True) [StderrData ''b'', StdoutData ''a'', ExitEvent (Some 0)] \<and>
   spawn (Child True True [StderrData ''b'', StdoutData ''a'', ExitEvent (Some 0)]) =
     Resolved \<lparr>stdout = ''a'', stderr = ''b'', stdCombined = ''ba'', code = 0\<rparr> \<and>
   concat (all_chunks (before_signal [StderrData ''b'', StdoutData ''a'', ExitEvent (Some 0)])) = ''ba''"
  using spawn_output_before_exit [of True True "[StderrData ''b'', StdoutData ''a'', ExitEvent (Some 0)]"
      "\<lparr>stdout = ''a'', stderr = ''b'', stdCombined = ''ba'', code = 0\<rparr>"]
  by (simp add: spawn_init_def before_signal_def Let_def)

text \<open>
  C3 as stated fails for a chunk that arrives after the \<open>exit\<close> event (the streams of a
  child may still be open then): the result was built at the \<open>exit\<close> event and lacks it.
\<close>

theorem spawn_late_chunk_counterexample:
  "spawn (Child True True [StdoutData ''a'', ExitEvent (Some 0), StdoutData ''b'']) =
     Resolved \<lparr>stdout = ''a'', stderr = [], stdCombined = ''a'', code = 0\<rparr> \<and>
   concat (stdout_chunks [StdoutData ''a'', ExitEvent (Some 0), StdoutData ''b'']) = ''ab''"
  by (simp add: spawn_init_def Let_def)


section \<open>Properties of the numbers\<close>

text \<open>
  Every natural number below \<open>2^53\<close> is a binary64 value: rounding leaves it as it is.
\<close>

lemma round_half_even_of_int: "round_half_even (of_int k) = k"
  by (simp add: round_half_even_def)

lemma pow2_nonneg_eq: "0 \<le> e \<Longrightarrow> pow2 e = 2 ^ nat e"
  by (simp add: pow2_def)

lemma ilog2_of_nat:
  assumes "0 < n"
  shows "ilog2 (of_nat n) = bitlen (int n) - 1"
proof -
  have "quotient_of (of_int (int n)) = (int n, 1)"
    by (simp add: of_int_rat quotient_of_Fract Rat.normalize_def)
  then have q: "quotient_of (of_nat n) = (int n, 1)"
    by simp
  have b: "1 \<le> bitlen (int n)"
    using assms by (simp add: bitlen_alt_def)
  have "(2::int) ^ nat (bitlen (int n) - 1) \<le> int n"
    using bitlen_bounds [of "int n"] assms by simp
  then have "(of_int ((2::int) ^ nat (bitlen (int n) - 1)) :: rat) \<le> of_int (int n)"
    by (simp only: of_int_le_iff)
  then have "pow2 (bitlen (int n) - 1) \<le> of_nat n"
    using b by (simp add: pow2_nonneg_eq)
  moreover have "bitlen 1 = 1" by (simp add: bitlen_alt_def)
  ultimately show ?thesis
    by (simp add: ilog2_def q)
qed

lemma fl_of_nat:
  assumes "n < 2 ^ 53"
  shows "fl (of_nat n) = Fin (of_nat n)"
proof (cases "n = 0")
  case True
  then show ?thesis by (simp add: fl_def)
next
  case False
  define e where "e = bitlen (int n) - 1"
  have pos: "0 < n" using False by simp
  have il: "ilog2 (of_nat n) = e" by (simp add: ilog2_of_nat pos e_def)
  have e0: "0 \<le> e" using pos by (simp add: e_def bitlen_alt_def)
  have "bitlen (int n) \<le> 53"
    using assms by (simp add: bitlen_le_iff_power)
  then have e52: "e \<le> 52" by (simp add: e_def)
  define k where "k = nat (52 - e)"
  have u: "pow2 (e - 52) = 1 / 2 ^ k"
  proof (cases "e = 52")
    case True
    then show ?thesis by (simp add: pow2_def k_def)
  next
    case False
    then have "e - 52 < 0" using e52 by simp
    then show ?thesis by (simp add: pow2_def k_def)
  qed
  have scaled: "(of_nat n :: rat) / (1 / 2 ^ k) = of_int (int n * 2 ^ k)"
    by simp
  have r: "round_half_even ((of_nat n :: rat) / (1 / 2 ^ k)) = int n * 2 ^ k"
    unfolding scaled by (rule round_half_even_of_int)
  have y: "(of_int (int n * 2 ^ k) :: rat) * (1 / 2 ^ k) = of_nat n"
    by simp
  have small: "\<not> pow2 1024 \<le> (of_nat n :: rat)"
  proof -
    have "(of_nat n :: rat) < of_nat (2 ^ 53)" using assms by (simp only: of_nat_less_iff)
    then have "(of_nat n :: rat) < 2 ^ 53" by simp
    also have "(2::rat) ^ 53 \<le> 2 ^ 1024" by (rule power_increasing) simp_all
    finally have "(of_nat n :: rat) < 2 ^ nat 1024" by simp
    then show ?thesis unfolding pow2_def by simp
  qed
  have m: "max e (- 1022) = e" using e0 by simp
  have a: "\<bar>of_nat n :: rat\<bar> = of_nat n" by simp
  have "fl (of_nat n) =
    (if (of_nat n :: rat) = 0 then Fin 0
     else if pow2 1024 \<le> (of_nat n :: rat) then (if (0::rat) < of_nat n then PosInf else NegInf)
     else Fin (if (0::rat) < of_nat n then of_nat n else - of_nat n))"
    unfolding fl_def Let_def a il m u r y ..
  then show ?thesis using pos small by simp
qed

lemma floor_rat_numeral_div: "\<lfloor>(numeral a / numeral b :: rat)\<rfloor> = numeral a div numeral b"
  using floor_divide_of_int_eq [of "numeral a" "numeral b", where ?'a = rat] by simp

lemma fl_numeral: "(numeral k :: nat) < 2 ^ 53 \<Longrightarrow> fl (numeral k) = Fin (numeral k)"
  using fl_of_nat [of "numeral k"] by simp

lemma fl_1: "fl 1 = Fin 1"
  using fl_of_nat [of 1] by simp

lemma num_add_nat:
  "a + b < 2 ^ 53 \<Longrightarrow> num_add (Fin (of_nat a)) (Fin (of_nat b)) = Fin (of_nat (a + b))"
  using fl_of_nat [of "a + b"] by simp

lemma toFixed_2_total: "\<exists>p. toFixed to_string 2 x = Inr p"
  by (cases x) (simp_all add: toFixed_def Let_def)

lemma toFixed_NaN: "toFixed to_string 2 NaN = Inr ''NaN''"
  by (simp add: toFixed_def)

lemma toFixed_100: "toFixed to_string 2 (Fin 100) = Inr ''100.00''"
proof -
  have n: "nat \<lfloor>\<bar>100::rat\<bar> * 10 ^ 2 + 1 / 2\<rfloor> = 10000"
    by (simp add: floor_rat_numeral_div)
  have m: "show_nat 10000 = ''10000''"
    by (simp add: show_nat.simps digit_def)
  have big: "\<not> (10::rat) ^ 21 \<le> \<bar>100\<bar>" by simp
  show ?thesis
    unfolding toFixed_def Let_def number.case n m using big by simp
qed

lemma num_div_NaN: "num_div x NaN = NaN"
  by (cases x) simp_all

lemma percentage_complete:
  assumes "0 < l" and "l < 2 ^ 53"
  shows "toFixed to_string 2 (num_mul (num_div (Fin (of_nat l)) (fl (of_nat l))) (Fin 100)) = Inr ''100.00''"
proof -
  have "fl (of_nat l) = Fin (of_nat l)" using assms(2) by (rule fl_of_nat)
  moreover have "num_div (Fin (of_nat l)) (Fin (of_nat l)) = Fin 1"
    using assms(1) by (simp add: fl_1)
  moreover have "num_mul (Fin 1) (Fin 100) = Fin 100"
    by (simp add: fl_numeral)
  ultimately show ?thesis by (simp add: toFixed_100)
qed

section \<open>Properties of downloadFile\<close>

lemma download_step_total: "\<exists>s'. download_step to_string s ev = Inr s'"
proof (cases ev)
  case (DataEvent chunk)
  obtain p where "toFixed to_string 2
      (num_mul (num_div (num_add (downloaded s) (Fin (of_nat (length chunk)))) (contentLength s)) (Fin 100)) = Inr p"
    using toFixed_2_total by blast
  then show ?thesis using DataEvent by (simp add: Let_def)
qed simp_all

lemma download_run_total: "\<exists>s'. download_run to_string s evs = Inr s'"
proof (induction evs arbitrary: s)
  case Nil
  then show ?case by simp
next
  case (Cons ev evs)
  obtain s1 where "download_step to_string s ev = Inr s1"
    using download_step_total by blast
  then show ?case using Cons.IH [of s1] by simp
qed

lemma download_step_written:
  "download_step to_string s ev = Inr s' \<Longrightarrow> written s' = written s @ concat (body_chunks [ev])"
  by (cases ev) (auto simp: Let_def split: sum.splits)

lemma body_chunks_Cons: "body_chunks (ev # evs) = body_chunks [ev] @ body_chunks evs"
  by (cases ev) simp_all

lemma download_run_written:
  "download_run to_string s evs = Inr s' \<Longrightarrow> written s' = written s @ concat (body_chunks evs)"
proof (induction evs arbitrary: s)
  case Nil
  then show ?case by simp
next
  case (Cons ev evs)
  then obtain s1 where s1: "download_step to_string s ev = Inr s1" and
    rest: "download_run to_string s1 evs = Inr s'"
    by (auto split: sum.splits)
  have "written s' = written s1 @ concat (body_chunks evs)" using Cons.IH [OF rest] .
  then show ?case using download_step_written [OF s1] body_chunks_Cons [of ev evs] by simp
qed



lemma download_step_status:
  "download_step to_string s (with_status st ev) = download_step to_string s ev"
  by (cases ev) simp_all

lemma download_run_status:
  "download_run to_string s (map (with_status st) evs) = download_run to_string s evs"
  by (induction evs arbitrary: s) (simp_all add: download_step_status split: sum.splits)



text \<open>
  \<open>downloadFile\<close> never reads the status code: a trace gives the same result under any
  status, and every chunk of the body is written to the destination.
\<close>

lemma downloadFile_ignores_status:
  "downloadFile to_string (map (with_status st) evs) = downloadFile to_string evs \<and>
   (\<exists>s. downloadFile to_string evs = Inr s \<and> written s = concat (body_chunks evs))"
proof -
  obtain s where s: "download_run to_string download_init evs = Inr s"
    using download_run_total by blast
  then show ?thesis using download_run_written [OF s]
    by (simp add: downloadFile_def download_init_def download_run_status)
qed

text \<open>
  C5, on the code. A response with status 404 and the body \<open>Not Found\<close>: the call
  resolves, and the destination holds the error body as if it were the resource.
\<close>

theorem downloadFile_404_keeps_error_body:
  "downloadFile unused_to_string
     [ResponseEvent \<lparr>statusCode = 404, content_length = Some 9\<rparr>,
      DataEvent ''Not Found'', EndEvent, CompleteEvent] =
   Inr \<lparr>contentLength = Fin 9, downloaded = Fin 9, written = ''Not Found'',
        logged_lines = [(Info, Text ''Download status: 100.00%'')], settled = Resolved ()\<rparr>"
  by (simp add: downloadFile_def download_init_def Let_def fl_numeral fl_1 toFixed_100)


lemma download_run_undeclared:
  "contentLength s = NaN \<Longrightarrow> list_all undeclared body \<Longrightarrow>
   \<exists>s'. download_run to_string s body = Inr s' \<and> contentLength s' = NaN \<and>
     logged_lines s' = logged_lines s @ replicate (length (body_chunks body)) (progress_line ''NaN'')"
proof (induction body arbitrary: s)
  case Nil
  then show ?case by simp
next
  case (Cons ev body)
  show ?case
  proof (cases ev)
    case (ResponseEvent r)
    then have "content_length r = None" using Cons.prems by simp
    then show ?thesis using ResponseEvent Cons.prems Cons.IH [of "s\<lparr>contentLength := NaN\<rparr>"]
      by simp
  next
    case (DataEvent chunk)
    let ?s1 = "s\<lparr>downloaded := num_add (downloaded s) (Fin (of_nat (length chunk))),
      written := written s @ chunk, logged_lines := logged_lines s @ [progress_line ''NaN'']\<rparr>"
    have "download_step to_string s ev = Inr ?s1"
      using DataEvent Cons.prems(1) by (simp add: Let_def num_div_NaN toFixed_NaN progress_line_def)
    then show ?thesis using DataEvent Cons.prems Cons.IH [of ?s1]
      by (simp add: replicate_append_same)
  next
    case EndEvent
    then show ?thesis using Cons.prems Cons.IH [of s] by simp
  next
    case CompleteEvent
    then show ?thesis using Cons.prems Cons.IH [of "s\<lparr>settled := settle (settled s) (Resolved ())\<rparr>"]
      by simp
  next
    case (RequestError err)
    then show ?thesis using Cons.prems Cons.IH [of "s\<lparr>settled := settle (settled s) (Rejected err)\<rparr>"]
      by simp
  qed
qed

text \<open>
  C6. No trace makes a listener of \<open>downloadFile\<close> throw. When the response declares no
  \<open>content-length\<close>, the percentage of every chunk is the text \<open>NaN\<close>: each chunk logs
  the line \<open>Download status: NaN%\<close> and the fetch goes on.
\<close>

theorem downloadFile_without_content_length:
  "(\<exists>s. downloadFile to_string evs = Inr s) \<and>
   (content_length r = None \<and> list_all undeclared body \<longrightarrow>
      (\<exists>s. downloadFile to_string (ResponseEvent r # body) = Inr s \<and>
           logged_lines s = replicate (length (body_chunks body)) (progress_line ''NaN'')))"
proof
  show "\<exists>s. downloadFile to_string evs = Inr s"
    using download_run_total by (simp add: downloadFile_def)
next
  show "content_length r = None \<and> list_all undeclared body \<longrightarrow>
      (\<exists>s. downloadFile to_string (ResponseEvent r # body) = Inr s \<and>
           logged_lines s = replicate (length (body_chunks body)) (progress_line ''NaN''))"
  proof
    assume a: "content_length r = None \<and> list_all undeclared body"
    show "\<exists>s. downloadFile to_string (ResponseEvent r # body) = Inr s \<and>
           logged_lines s = replicate (length (body_chunks body)) (progress_line ''NaN'')"
      using a download_run_undeclared [of "download_init\<lparr>contentLength := NaN\<rparr>" body to_string]
      by (auto simp: downloadFile_def download_init_def)
  qed
qed


theorem downloadFile_without_content_length_witness:
  "content_length \<lparr>statusCode = 200, content_length = None\<rparr> = None \<and>
   list_all undeclared [DataEvent ''abc'', DataEvent ''de'', EndEvent, CompleteEvent] \<and>
   (\<exists>s. downloadFile unused_to_string
          [ResponseEvent \<lparr>statusCode = 200, content_length = None\<rparr>,
           DataEvent ''abc'', DataEvent ''de'', EndEvent, CompleteEvent] = Inr s \<and>
        logged_lines s = [progress_line ''NaN'', progress_line ''NaN''])"
  using downloadFile_without_content_length [of unused_to_string "[]"
      "\<lparr>statusCode = 200, content_length = None\<rparr>"
      "[DataEvent ''abc'', DataEvent ''de'', EndEvent, CompleteEvent]"]
  by (simp add: numeral_2_eq_2)

lemma body_chunks_append: "body_chunks (xs @ ys) = body_chunks xs @ body_chunks ys"
  by (induction xs rule: body_chunks.induct) simp_all

lemma download_run_snoc:
  "download_run to_string s (xs @ [x]) =
     (case download_run to_string s xs of Inl e \<Rightarrow> Inl e | Inr s1 \<Rightarrow> download_step to_string s1 x)"
  by (induction xs arbitrary: s) (simp_all split: sum.splits)

lemma download_run_counts:
  "downloaded s = Fin (of_nat d) \<Longrightarrow> \<not> list_ex is_response body \<Longrightarrow>
   d + length (concat (body_chunks body)) < 2 ^ 53 \<Longrightarrow>
   \<exists>s'. download_run to_string s body = Inr s' \<and>
        downloaded s' = Fin (of_nat (d + length (concat (body_chunks body)))) \<and>
        contentLength s' = contentLength s"
proof (induction body arbitrary: s d)
  case Nil
  then show ?case by simp
next
  case (Cons ev body)
  show ?case
  proof (cases ev)
    case (ResponseEvent r)
    then show ?thesis using Cons.prems by simp
  next
    case (DataEvent chunk)
    obtain s1 where s1: "download_step to_string s ev = Inr s1"
      using download_step_total by blast
    have sum: "d + length chunk < 2 ^ 53" using Cons.prems(3) DataEvent by simp
    have d1: "downloaded s1 = Fin (of_nat (d + length chunk))" and c1: "contentLength s1 = contentLength s"
      using s1 DataEvent Cons.prems(1) num_add_nat [OF sum]
      by (auto simp: Let_def split: sum.splits)
    have "\<exists>s'. download_run to_string s1 body = Inr s' \<and>
        downloaded s' = Fin (of_nat (d + length chunk + length (concat (body_chunks body)))) \<and>
        contentLength s' = contentLength s1"
      using Cons.IH [OF d1] Cons.prems(2,3) DataEvent by (simp add: add.assoc)
    then show ?thesis using s1 c1 DataEvent by (auto simp: add.assoc)
  next
    case EndEvent
    then show ?thesis using Cons.prems Cons.IH [of s d] by simp
  next
    case CompleteEvent
    then show ?thesis
      using Cons.prems Cons.IH [of "s\<lparr>settled := settle (settled s) (Resolved ())\<rparr>" d] by simp
  next
    case (RequestError err)
    then show ?thesis
      using Cons.prems Cons.IH [of "s\<lparr>settled := settle (settled s) (Rejected err)\<rparr>" d] by simp
  qed
qed

lemma download_run_last_line:
  "downloaded s = Fin (of_nat d) \<Longrightarrow> \<not> list_ex is_response body \<Longrightarrow>
   d + length (concat (body_chunks body)) < 2 ^ 53 \<Longrightarrow> body_chunks body \<noteq> [] \<Longrightarrow>
   download_run to_string s body = Inr s' \<Longrightarrow>
   toFixed to_string 2
     (num_mul (num_div (Fin (of_nat (d + length (concat (body_chunks body))))) (contentLength s)) (Fin 100)) = Inr p \<Longrightarrow>
   last (logged_lines s') = progress_line p"
proof (induction body arbitrary: s' rule: rev_induct)
  case Nil
  then show ?case by simp
next
  case (snoc x xs)
  have noresp: "\<not> list_ex is_response xs" using snoc.prems(2) by simp
  have bound: "d + length (concat (body_chunks xs)) < 2 ^ 53"
    using snoc.prems(3) by (simp add: body_chunks_append)
  obtain s1 where s1: "download_run to_string s xs = Inr s1"
    and d1: "downloaded s1 = Fin (of_nat (d + length (concat (body_chunks xs))))"
    and c1: "contentLength s1 = contentLength s"
    using download_run_counts [OF snoc.prems(1) noresp bound] by blast
  have step: "download_step to_string s1 x = Inr s'"
    using snoc.prems(5) s1 by (simp add: download_run_snoc)
  show ?case
  proof (cases x)
    case (DataEvent chunk)
    have sum: "d + length (concat (body_chunks xs)) + length chunk < 2 ^ 53"
      using snoc.prems(3) DataEvent by (simp add: body_chunks_append)
    have total: "d + length (concat (body_chunks (xs @ [x]))) = d + length (concat (body_chunks xs)) + length chunk"
      using DataEvent by (simp add: body_chunks_append)
    show ?thesis
      using step DataEvent d1 c1 num_add_nat [OF sum] snoc.prems(6)
      unfolding total
      by (auto simp: Let_def progress_line_def split: sum.splits)
  next
    case (ResponseEvent r)
    then show ?thesis using snoc.prems(2) by simp
  next
    case EndEvent
    then show ?thesis
      using snoc.IH [OF snoc.prems(1) noresp bound _ s1] snoc.prems(4,6) step
      by (auto simp: body_chunks_append)
  next
    case CompleteEvent
    then show ?thesis
      using snoc.IH [OF snoc.prems(1) noresp bound _ s1] snoc.prems(4,6) step
      by (auto simp: body_chunks_append)
  next
    case (RequestError err)
    then show ?thesis
      using snoc.IH [OF snoc.prems(1) noresp bound _ s1] snoc.prems(4,6) step
      by (auto simp: body_chunks_append)
  qed
qed

text \<open>
  C7. When the response declares \<open>content-length\<close> \<open>l\<close> and the chunks of the body total
  exactly \<open>l\<close> bytes, the last progress line, the one of the final chunk, is
  \<open>Download status: 100.00%\<close>. Byte counts are below \<open>2^53\<close>, where a Number counts
  exactly, and a stream emits no empty chunk.
\<close>

theorem downloadFile_final_progress:
  assumes "content_length r = Some l"
    and "l < 2 ^ 53"
    and "\<not> list_ex is_response body"
    and "body_chunks body \<noteq> []"
    and "\<forall>chunk \<in> set (body_chunks body). chunk \<noteq> []"
    and "length (concat (body_chunks body)) = l"
  shows "\<exists>s. downloadFile to_string (ResponseEvent r # body) = Inr s \<and>
             last (logged_lines s) = progress_line ''100.00''"
proof -
  let ?s0 = "download_init\<lparr>contentLength := fl (of_nat l)\<rparr>"
  obtain s where s: "download_run to_string ?s0 body = Inr s"
    using download_run_total by blast
  obtain c cs where cs: "body_chunks body = c # cs" using assms(4) by (cases "body_chunks body") auto
  then have "c \<noteq> []" using assms(5) by simp
  then have pos: "0 < l" using assms(6) cs by auto
  have d0: "downloaded ?s0 = Fin (of_nat 0)" by (simp add: download_init_def)
  have "last (logged_lines s) = progress_line ''100.00''"
    using download_run_last_line [OF d0 assms(3) _ assms(4) s, of "''100.00''"]
      assms(2,6) percentage_complete [OF pos assms(2), of to_string]
    by simp
  then show ?thesis using s assms(1) by (simp add: downloadFile_def)
qed

theorem downloadFile_final_progress_witness:
  "content_length \<lparr>statusCode = 200, content_length = Some 5\<rparr> = Some 5 \<and> (5::nat) < 2 ^ 53 \<and>
   \<not> list_ex is_response [DataEvent ''abc'', DataEvent ''de'', EndEvent, CompleteEvent] \<and>
   body_chunks [DataEvent ''abc'', DataEvent ''de'', EndEvent, CompleteEvent] = [''abc'', ''de''] \<and>
   (\<exists>s. downloadFile unused_to_string
          [ResponseEvent \<lparr>statusCode = 200, content_length = Some 5\<rparr>,
           DataEvent ''abc'', DataEvent ''de'', EndEvent, CompleteEvent] = Inr s \<and>
        last (logged_lines s) = progress_line ''100.00'')"
  using downloadFile_final_progress [of "\<lparr>statusCode = 200, content_length = Some 5\<rparr>" 5
      "[DataEvent ''abc'', DataEvent ''de'', EndEvent, CompleteEvent]" unused_to_string]
  by simp

end
